theory Spec2Isabelle
  imports Main "HOL-Library.Word"
begin

section \<open>Ventana BigTIFF support: a shallow embedding of openslide-vendor-ventana.c\<close>

text \<open>
  The C file reads an open TIFF through libtiff, scans a description string with a GLib
  regular expression, queries an XML packet through libxml2 and hands a sorted array of
  directory numbers to the generic TIFF backend. The embedding keeps the file's own
  functions and names. What the file gets from a library is either data of the model
  (the tags of a TIFF directory), a function written out from the library's documented
  behaviour (the regular expression match, the list sort), or a field of the record
  \<open>libs\<close> (the XML parser, the XPath evaluator, the codec table).
\<close>

subsection \<open>Errors\<close>

text \<open>
  A \<open>GError\<close> of the domain \<open>OPENSLIDE_ERROR\<close>: a code and a message. The function
  \<open>g_prefix_error\<close> puts a prefix before the message and keeps the code.
\<close>

datatype OpenSlideError = OPENSLIDE_ERROR_FORMAT_NOT_SUPPORTED | OPENSLIDE_ERROR_BAD_DATA

datatype gerror = GError (code: OpenSlideError) (message: string)

definition g_prefix_error :: "string \<Rightarrow> gerror \<Rightarrow> gerror" where
  "g_prefix_error prefix e = GError (code e) (prefix @ message e)"

text \<open>The \<open>%u\<close> conversion of \<open>g_set_error\<close>: an unsigned number in decimal.\<close>

definition digit_char :: "nat \<Rightarrow> char" where
  "digit_char n = char_of (48 + n)"

function print_unsigned :: "nat \<Rightarrow> string" where
  "print_unsigned n =
     (if n < 10 then [digit_char n] else print_unsigned (n div 10) @ [digit_char (n mod 10)])"
  by pat_completeness auto
termination
  by (relation "measure id") auto

declare print_unsigned.simps [simp del]

subsection \<open>The TIFF handle\<close>

text \<open>
  One TIFF directory, as far as this file reads it: \<open>TIFFIsTiled\<close>, and the tags
  \<open>TIFFTAG_IMAGEWIDTH\<close> (a \<open>uint32_t\<close>), \<open>TIFFTAG_IMAGEDESCRIPTION\<close>,
  \<open>TIFFTAG_COMPRESSION\<close> (a \<open>uint16_t\<close>) and \<open>TIFFTAG_XMLPACKET\<close>. A tag that
  \<open>TIFFGetField\<close> cannot read is \<open>None\<close>.
\<close>

record directory =
  is_tiled :: bool
  imagewidth :: "32 word option"
  imagedescription :: "string option"
  compression :: "16 word option"
  xmlpacket :: "string option"

text \<open>
  An open TIFF always has a current directory. The handle is the current directory and
  the directories that \<open>TIFFReadDirectory\<close> yields after it, in order; the caller has
  positioned the handle at directory 0, so \<open>TIFFCurrentDirectory\<close> is the position in
  this sequence.
\<close>

type_synonym tiff = "directory \<times> directory list"

definition tiff_directories :: "tiff \<Rightarrow> directory list" where
  "tiff_directories t = fst t # snd t"

subsection \<open>struct level and width_compare\<close>

text \<open>
  \<open>struct level { int32_t directory; int64_t width; }\<close>. The width comes from a
  \<open>uint32_t\<close> and the directory from a \<open>tdir_t\<close>, so neither field overflows and both
  are integers here.
\<close>

record level =
  directory :: int
  width :: int

definition width_compare :: "level \<Rightarrow> level \<Rightarrow> int" where
  "width_compare la lb =
     (if width la > width lb then -1
      else if width la = width lb then 0
      else 1)"

subsection \<open>g\_list\_sort\<close>

text \<open>
  GLib's \<open>g_list_sort\<close> is a merge sort: a list of two or more elements is cut after
  its first half (\<open>length div 2\<close> elements), both halves are sorted, and the merge
  takes the head of the first list whenever the comparison is \<open>\<le> 0\<close>.
\<close>

fun g_list_sort_merge :: "('a \<Rightarrow> 'a \<Rightarrow> int) \<Rightarrow> 'a list \<Rightarrow> 'a list \<Rightarrow> 'a list" where
  "g_list_sort_merge compare_func [] l2 = l2"
| "g_list_sort_merge compare_func l1 [] = l1"
| "g_list_sort_merge compare_func (x # l1) (y # l2) =
     (if compare_func x y \<le> 0 then x # g_list_sort_merge compare_func l1 (y # l2)
      else y # g_list_sort_merge compare_func (x # l1) l2)"

function g_list_sort :: "('a \<Rightarrow> 'a \<Rightarrow> int) \<Rightarrow> 'a list \<Rightarrow> 'a list" where
  "g_list_sort compare_func xs =
     (if length xs \<le> 1 then xs
      else g_list_sort_merge compare_func
             (g_list_sort compare_func (take (length xs div 2) xs))
             (g_list_sort compare_func (drop (length xs div 2) xs)))"
  by pat_completeness auto
termination
  by (relation "measure (\<lambda>(c, xs). length xs)") auto

declare g_list_sort.simps [simp del]

subsection \<open>find\_property\<close>

text \<open>
  \<open>find_property\<close> builds the pattern \<open>NAME=["'](.*)["']\<close> (with \<open>quotes\<close>) or
  \<open>NAME=(\S+)\<close> (without), compiles it with \<open>G_REGEX_UNGREEDY\<close> and takes the first
  match in the string. The property name is spliced into the pattern as it is; the only
  caller passes \<open>level\<close>, which has no metacharacter, and the model matches the name
  literally.

  The pattern is compiled without \<open>G_REGEX_RAW\<close>, so the subject is read as UTF-8 (GLib
  requires it to be valid UTF-8) and a character may be several \<open>char\<close>s: a first byte
  and the continuation bytes \<open>0x80\<close> to \<open>0xBF\<close> after it. \<open>is_space\<close> is the class
  \<open>\s\<close> on ASCII; white space outside ASCII is not modelled. Any newline sequence
  counts as a line end, which the dot does not match: LF, VT, FF, CR, and the characters
  U+0085, U+2028 and U+2029 (\<open>newline_here\<close>).

  \<open>match_here\<close> is the match of the pattern at one position of the subject. It gives the
  substrings of the match: number 0 is the whole match, number 1 is the parenthesised
  group. Ungreedy quantifiers take as little as the rest of the pattern allows:
  \<open>(\S+)\<close> at the end of the pattern takes one character that is not white space, and
  \<open>(.*)\<close> stops at the first quote character that follows (\<open>lazy_dot_star\<close> gives the
  group and that quote).
\<close>

definition is_space :: "char \<Rightarrow> bool" where
  "is_space c = (c = CHR '' '' \<or> c = CHR 0x09 \<or> c = CHR 0x0A \<or> c = CHR 0x0B
     \<or> c = CHR 0x0C \<or> c = CHR 0x0D)"

definition is_quote :: "char \<Rightarrow> bool" where
  "is_quote c = (c = CHR 0x22 \<or> c = CHR 0x27)"

fun literal :: "string \<Rightarrow> string \<Rightarrow> string option" where
  "literal [] s = Some s"
| "literal (k # ks) [] = None"
| "literal (k # ks) (c # cs) = (if k = c then literal ks cs else None)"

definition is_continuation :: "char \<Rightarrow> bool" where
  "is_continuation c = (128 \<le> (of_char c :: nat) \<and> (of_char c :: nat) < 192)"

definition newline_here :: "string \<Rightarrow> bool" where
  "newline_here s =
     (case s of
        [] \<Rightarrow> False
      | c # cs \<Rightarrow>
          c = CHR 0x0A \<or> c = CHR 0x0B \<or> c = CHR 0x0C \<or> c = CHR 0x0D
          \<or> (c = CHR 0xC2 \<and> take 1 cs = [CHR 0x85])
          \<or> (c = CHR 0xE2 \<and> (take 2 cs = [CHR 0x80, CHR 0xA8]
                \<or> take 2 cs = [CHR 0x80, CHR 0xA9])))"

fun lazy_dot_star :: "string \<Rightarrow> (string \<times> char) option" where
  "lazy_dot_star [] = None"
| "lazy_dot_star (c # cs) =
     (if is_quote c then Some ([], c)
      else if newline_here (c # cs) then None
      else map_option (\<lambda>(g, q). (c # g, q)) (lazy_dot_star cs))"

definition match_here :: "string \<Rightarrow> bool \<Rightarrow> string \<Rightarrow> string list option" where
  "match_here prop_name quotes s =
     (case literal (prop_name @ ''='') s of
        None \<Rightarrow> None
      | Some rest \<Rightarrow>
          (if quotes then
             (case rest of
                [] \<Rightarrow> None
              | q # body \<Rightarrow>
                  (if is_quote q then
                     (case lazy_dot_star body of
                        None \<Rightarrow> None
                      | Some (g, q') \<Rightarrow> Some [prop_name @ ''='' @ [q] @ g @ [q'], g])
                   else None))
           else
             (case rest of
                [] \<Rightarrow> None
              | c # cs \<Rightarrow>
                  (if is_space c then None
                   else
                     (let g = c # takeWhile is_continuation cs
                      in Some [prop_name @ ''='' @ g, g])))))"

text \<open>\<open>g_regex_match\<close>: the match at the leftmost position that has one.\<close>

fun g_regex_match :: "(string \<Rightarrow> string list option) \<Rightarrow> string \<Rightarrow> string list option" where
  "g_regex_match props_regex [] = props_regex []"
| "g_regex_match props_regex (c # cs) =
     (case props_regex (c # cs) of
        Some props_match \<Rightarrow> Some props_match
      | None \<Rightarrow> g_regex_match props_regex cs)"

definition g_match_info_fetch :: "string list \<Rightarrow> nat \<Rightarrow> string" where
  "g_match_info_fetch props_match match_num = props_match ! match_num"

text \<open>
  The result is \<open>None\<close> where the C function returns false, and the string stored in
  \<open>*prop_value\<close> where it returns true.
\<close>

definition find_property :: "string \<Rightarrow> string \<Rightarrow> bool \<Rightarrow> string option" where
  "find_property string_to_parse prop_name quotes =
     (case g_regex_match (match_here prop_name quotes) string_to_parse of
        None \<Rightarrow> None
      | Some props_match \<Rightarrow> Some (g_match_info_fetch props_match 0))"

subsection \<open>The slide object and the libraries\<close>

text \<open>
  Of \<open>openslide_t\<close> the file touches two hash tables: \<open>properties\<close> (name to value)
  and \<open>associated_images\<close> (name to image). \<open>g_hash_table_insert\<close> replaces the value
  of a key that is present, so each table is a map. The pointer \<open>osr\<close> may be \<open>NULL\<close>
  (the caller only wants to know whether the file is recognised): \<open>openslide option\<close>.
  An associated image is modelled by the number of the directory it reads.
\<close>

record openslide =
  properties :: "string \<rightharpoonup> string"
  associated_images :: "string \<rightharpoonup> nat"

text \<open>
  An XML node, as far as \<open>xmlGetProp\<close> reads it: attribute name to value. The object
  that \<open>xmlXPathEvalExpression\<close> returns has a field \<open>nodesetval\<close> that is \<open>NULL\<close>
  or holds the table of nodes.
\<close>

type_synonym xml_node = "string \<Rightarrow> string option"

type_synonym xpath_object = "xml_node list option"

text \<open>
  The functions of libxml2, libtiff and of other OpenSlide files that this file calls.
  \<open>xmlReadMemory\<close> gives \<open>None\<close> for text it cannot parse and
  \<open>xmlXPathEvalExpression\<close> gives \<open>None\<close> for \<open>NULL\<close>.
  \<open>tiff_associated_image_error\<close> is the failure of reading a directory as an associated
  image (see \<open>openslide_add_tiff_associated_image\<close> below);
  \<open>openslide_duplicate_int_prop\<close> and \<open>openslide_duplicate_double_prop\<close> are
  \<open>_openslide_duplicate_int_prop\<close> and \<open>_openslide_duplicate_double_prop\<close>, which copy
  a property under a second name.
\<close>

record 'doc libs =
  xmlReadMemory :: "string \<Rightarrow> 'doc option"
  xmlXPathEvalExpression :: "string \<Rightarrow> 'doc \<Rightarrow> xpath_object option"
  TIFFIsCODECConfigured :: "16 word \<Rightarrow> bool"
  tiff_associated_image_error :: "directory \<Rightarrow> gerror option"
  openslide_duplicate_int_prop ::
    "(string \<rightharpoonup> string) \<Rightarrow> string \<Rightarrow> string \<Rightarrow> (string \<rightharpoonup> string)"
  openslide_duplicate_double_prop ::
    "(string \<rightharpoonup> string) \<Rightarrow> string \<Rightarrow> string \<Rightarrow> (string \<rightharpoonup> string)"

definition VENTANA_ISCAN :: string where
  "VENTANA_ISCAN = ''/EncodeInfo/SlideInfo/iScan''"

definition OPENSLIDE_PROPERTY_NAME_VENDOR :: string where
  "OPENSLIDE_PROPERTY_NAME_VENDOR = ''openslide.vendor''"

definition OPENSLIDE_PROPERTY_NAME_OBJECTIVE_POWER :: string where
  "OPENSLIDE_PROPERTY_NAME_OBJECTIVE_POWER = ''openslide.objective-power''"

definition OPENSLIDE_PROPERTY_NAME_MPP_X :: string where
  "OPENSLIDE_PROPERTY_NAME_MPP_X = ''openslide.mpp-x''"

definition OPENSLIDE_PROPERTY_NAME_MPP_Y :: string where
  "OPENSLIDE_PROPERTY_NAME_MPP_Y = ''openslide.mpp-y''"

subsection \<open>eval\_xpath and set\_prop\_from\_attribute\<close>

text \<open>\<open>eval_xpath\<close> returns \<open>NULL\<close> if there is no match, else the table of nodes.\<close>

definition eval_xpath :: "'doc libs \<Rightarrow> string \<Rightarrow> 'doc \<Rightarrow> xml_node list option" where
  "eval_xpath env xpath context =
     (case xmlXPathEvalExpression env xpath context of
        None \<Rightarrow> None
      | Some None \<Rightarrow> None
      | Some (Some nodeTab) \<Rightarrow> (if length nodeTab = 0 then None else Some nodeTab))"

definition set_prop_from_attribute ::
  "'doc libs \<Rightarrow> openslide option \<Rightarrow> string \<Rightarrow> string \<Rightarrow> string \<Rightarrow> 'doc \<Rightarrow> openslide option"
where
  "set_prop_from_attribute env osr property_name xpath attribute_name context =
     (case eval_xpath env xpath context of
        None \<Rightarrow> osr
      | Some [] \<Rightarrow> osr
      | Some (node # _) \<Rightarrow>
          (case (osr, node attribute_name) of
             (Some s, Some str) \<Rightarrow>
               Some (s\<lparr>properties := (properties s)(property_name \<mapsto> str)\<rparr>)
           | _ \<Rightarrow> osr))"

subsection \<open>add\_associated\_image\<close>

text \<open>
  Modelled from the spec: \<open>_openslide_add_tiff_associated_image\<close> is a function of the
  generic TIFF backend, not of this file. The spec describes the registry as a map from
  the image's name to a handle bound to a directory, owned by the caller and optional,
  and a failed registration as a failure of reading the container. So the failure is a
  function of the directory alone (\<open>tiff_associated_image_error\<close>), and a table that is
  supplied gets the name mapped to the directory's number.
\<close>

definition openslide_add_tiff_associated_image ::
  "'doc libs \<Rightarrow> (string \<rightharpoonup> nat) option \<Rightarrow> string \<Rightarrow> nat \<Rightarrow> directory
     \<Rightarrow> gerror + (string \<rightharpoonup> nat) option"
where
  "openslide_add_tiff_associated_image env ht name dir d =
     (case tiff_associated_image_error env d of
        Some e \<Rightarrow> Inl e
      | None \<Rightarrow> Inr (map_option (\<lambda>h. h(name \<mapsto> dir)) ht))"

text \<open>
  \<open>add_associated_image\<close> adds the image of the current directory (number \<open>dir\<close>).
  \<open>Inl\<close> is the fatal error; \<open>Inr\<close> does not imply that an image was added.
\<close>

definition add_associated_image ::
  "'doc libs \<Rightarrow> (string \<rightharpoonup> nat) option \<Rightarrow> string option \<Rightarrow> nat \<Rightarrow> directory
     \<Rightarrow> gerror + (string \<rightharpoonup> nat) option"
where
  "add_associated_image env ht name_if_available dir d =
     (case (case name_if_available of
              Some n \<Rightarrow> Some n
            | None \<Rightarrow> imagedescription d) of
        None \<Rightarrow> Inr ht
      | Some name \<Rightarrow> openslide_add_tiff_associated_image env ht name dir d)"

subsection \<open>parse\_xml\_description\<close>

text \<open>
  The properties read from the attributes of the \<open>iScan\<close> element, in the order of the
  calls of \<open>set_prop_from_attribute\<close>: the name of the property and of the attribute.
\<close>

definition ventana_attributes :: "(string \<times> string) list" where
  "ventana_attributes =
     [(''ventana.magnification'', ''Magnification''),
      (''ventana.resolution'', ''ScanRes''),
      (''ventana.device-model'', ''UnitNumber''),
      (''ventana.build-version'', ''BuildVersion''),
      (''ventana.build-date'', ''BuildDate''),
      (''ventana.slide-annotation'', ''SlideAnnotation''),
      (''ventana.show-label'', ''ShowLabel''),
      (''ventana.label-boundary'', ''LabelBoundary''),
      (''ventana.z-layers'', ''Z-layers''),
      (''ventana.z-spacing'', ''Z-spacing''),
      (''ventana.focus-mode'', ''FocusMode''),
      (''ventana.focus-quality'', ''FocusQuality''),
      (''ventana.scan-mode'', ''ScanMode'')]"

text \<open>
  \<open>Inl\<close> is the error of a call that returns false, \<open>Inr\<close> the slide object after a
  call that returns true. Both failures come before the first property is set, so a
  failed call leaves the slide object as it was. The XPath context is the document it
  was made for. (\<open>g_error\<close> on a failed allocation of the context aborts the process and
  is not modelled.)
\<close>

definition parse_xml_description ::
  "'doc libs \<Rightarrow> string \<Rightarrow> openslide option \<Rightarrow> gerror + openslide option"
where
  "parse_xml_description env xml osr =
     (case xmlReadMemory env xml of
        None \<Rightarrow> Inl (GError OPENSLIDE_ERROR_FORMAT_NOT_SUPPORTED ''Could not parse XML'')
      | Some doc \<Rightarrow>
          (case eval_xpath env VENTANA_ISCAN doc of
             None \<Rightarrow> Inl (GError OPENSLIDE_ERROR_BAD_DATA ''Multiple iScan elements found'')
           | Some nodeTab \<Rightarrow>
               (if length nodeTab \<noteq> 1 then
                  Inl (GError OPENSLIDE_ERROR_BAD_DATA ''Multiple iScan elements found'')
                else
                  (let osr1 =
                     foldl (\<lambda>s (property_name, attribute_name).
                              set_prop_from_attribute env s property_name VENTANA_ISCAN
                                attribute_name doc)
                       osr ventana_attributes
                   in Inr (map_option
                        (\<lambda>s. s\<lparr>properties :=
                           openslide_duplicate_double_prop env
                             (openslide_duplicate_double_prop env
                                (openslide_duplicate_int_prop env (properties s)
                                   ''ventana.magnification''
                                   OPENSLIDE_PROPERTY_NAME_OBJECTIVE_POWER)
                                ''ventana.resolution'' OPENSLIDE_PROPERTY_NAME_MPP_X)
                             ''ventana.resolution'' OPENSLIDE_PROPERTY_NAME_MPP_Y\<rparr>)
                        osr1)))))"

subsection \<open>\_openslide\_try\_ventana\<close>

text \<open>\<open>strstr haystack needle \<noteq> NULL\<close>: the needle occurs in the haystack.\<close>

fun strstr :: "string \<Rightarrow> string \<Rightarrow> bool" where
  "strstr [] needle = (needle = [])"
| "strstr (c # cs) needle =
     (if literal needle (c # cs) = None then strstr cs needle else True)"

text \<open>
  The hash table \<open>osr ? osr->associated_images : NULL\<close> is changed in place; the model
  puts the table that \<open>add_associated_image\<close> returns back into the slide object.
\<close>

definition put_associated_images ::
  "openslide option \<Rightarrow> (string \<rightharpoonup> nat) option \<Rightarrow> openslide option"
where
  "put_associated_images osr ht =
     (case (osr, ht) of
        (Some s, Some h) \<Rightarrow> Some (s\<lparr>associated_images := h\<rparr>)
      | _ \<Rightarrow> osr)"

text \<open>
  The block at \<open>level=0\<close>: read \<open>TIFFTAG_XMLPACKET\<close>, look for \<open><iScan\<close> and parse.
  In every other case the slide object passes through.
\<close>

definition parse_xmp_at_level_0 ::
  "'doc libs \<Rightarrow> openslide option \<Rightarrow> string \<Rightarrow> directory \<Rightarrow> gerror + openslide option"
where
  "parse_xmp_at_level_0 env osr level_value d =
     (if level_value = ''0'' then
        (case xmlpacket d of
           None \<Rightarrow> Inl (GError OPENSLIDE_ERROR_FORMAT_NOT_SUPPORTED ''Not a Ventana slide'')
         | Some xmpData \<Rightarrow>
             (if \<not> strstr xmpData ''<iScan'' then
                Inl (GError OPENSLIDE_ERROR_FORMAT_NOT_SUPPORTED ''Not a Ventana slide'')
              else parse_xml_description env xmpData osr))
      else Inr osr)"

text \<open>
  The body of the do-while loop, for the current directory \<open>d\<close> with number \<open>dir\<close>. The
  first component of the result is \<open>Inl\<close> for \<open>goto FAIL\<close>, \<open>Inr None\<close> for
  \<open>continue\<close> and \<open>Inr (Some l)\<close> for the level that is pushed into the list; the second
  is the slide object after the body.
\<close>

definition try_ventana_directory ::
  "'doc libs \<Rightarrow> openslide option \<Rightarrow> nat \<Rightarrow> directory
     \<Rightarrow> (gerror + level option) \<times> openslide option"
where
  "try_ventana_directory env osr dir d =
     (if \<not> is_tiled d then (Inr None, osr)
      else
        (case imagewidth d of
           None \<Rightarrow> (Inr None, osr)
         | Some w \<Rightarrow>
             (if dir = 0 then
                (case add_associated_image env (map_option associated_images osr)
                        (Some ''label'') dir d of
                   Inl e \<Rightarrow>
                     (Inl (g_prefix_error ''Can't read associated label image: '' e), osr)
                 | Inr ht \<Rightarrow> (Inr None, put_associated_images osr ht))
              else if dir = 1 then
                (case add_associated_image env (map_option associated_images osr)
                        (Some ''thumbnail'') dir d of
                   Inl e \<Rightarrow>
                     (Inl (g_prefix_error ''Can't read associated thumbnail image: '' e), osr)
                 | Inr ht \<Rightarrow> (Inr None, put_associated_images osr ht))
              else
                (case imagedescription d of
                   None \<Rightarrow> (Inr None, osr)
                 | Some imageDesc \<Rightarrow>
                     (case find_property imageDesc ''level'' False of
                        None \<Rightarrow> (Inr None, osr)
                      | Some level_value \<Rightarrow>
                          (case compression d of
                             None \<Rightarrow>
                               (Inl (GError OPENSLIDE_ERROR_BAD_DATA
                                       ''Can't read compression scheme''), osr)
                           | Some c \<Rightarrow>
                               (if \<not> TIFFIsCODECConfigured env c then
                                  (Inl (GError OPENSLIDE_ERROR_BAD_DATA
                                          (''Unsupported TIFF compression: ''
                                             @ print_unsigned (unat c))), osr)
                                else
                                  (case parse_xmp_at_level_0 env osr level_value d of
                                     Inl e \<Rightarrow> (Inl e, osr)
                                   | Inr osr' \<Rightarrow>
                                       (Inr (Some \<lparr>directory = int dir,
                                                     width = uint w\<rparr>), osr')))))))))"

text \<open>
  The loop: the body for the current directory, then \<open>TIFFReadDirectory\<close>, until there
  is no further directory. \<open>g_list_prepend\<close> puts each new level before the others.
\<close>

fun try_ventana_directories ::
  "'doc libs \<Rightarrow> openslide option \<Rightarrow> nat \<Rightarrow> directory list \<Rightarrow> level list
     \<Rightarrow> (gerror + level list) \<times> openslide option"
where
  "try_ventana_directories env osr dir [] level_list = (Inr level_list, osr)"
| "try_ventana_directories env osr dir (d # ds) level_list =
     (case try_ventana_directory env osr dir d of
        (Inl e, osr') \<Rightarrow> (Inl e, osr')
      | (Inr None, osr') \<Rightarrow> try_ventana_directories env osr' (Suc dir) ds level_list
      | (Inr (Some l), osr') \<Rightarrow>
          try_ventana_directories env osr' (Suc dir) ds (l # level_list))"

text \<open>
  What a call does besides changing the slide object: \<open>Failed e\<close> is the return of false
  with the error \<open>e\<close>; \<open>Add_tiff_ops property_dir levels\<close> is the call
  \<open>_openslide_add_tiff_ops(osr, tiff, levels[0], 0, NULL, level_count, levels, ...)\<close>
  followed by the return of true. With no level, \<open>g_new(int32_t, 0)\<close> is \<open>NULL\<close> and
  the argument \<open>levels[0]\<close> reads through it: \<open>Invalid_read\<close>, after which C promises
  nothing.
\<close>

datatype outcome = Failed gerror | Invalid_read | Add_tiff_ops int "int list"

definition set_vendor :: "openslide option \<Rightarrow> openslide option" where
  "set_vendor osr =
     map_option
       (\<lambda>s. s\<lparr>properties := (properties s)(OPENSLIDE_PROPERTY_NAME_VENDOR \<mapsto> ''ventana'')\<rparr>)
       osr"

text \<open>
  \<open>level_count\<close> counts the pushes, so the copying loop empties the sorted list:
  \<open>levels\<close> holds the directory of each of its elements, in order.
\<close>

definition openslide_try_ventana ::
  "'doc libs \<Rightarrow> openslide option \<Rightarrow> tiff \<Rightarrow> outcome \<times> openslide option"
where
  "openslide_try_ventana env osr tiff =
     (if \<not> is_tiled (fst tiff) then
        (Failed (GError OPENSLIDE_ERROR_FORMAT_NOT_SUPPORTED ''TIFF is not tiled''), osr)
      else
        (case try_ventana_directories env (set_vendor osr) 0 (tiff_directories tiff) [] of
           (Inl e, osr') \<Rightarrow> (Failed e, osr')
         | (Inr level_list, osr') \<Rightarrow>
             (case map directory (g_list_sort width_compare level_list) of
                [] \<Rightarrow> (Invalid_read, osr')
              | property_dir # rest \<Rightarrow> (Add_tiff_ops property_dir (property_dir # rest), osr'))))"

subsection \<open>Notions the properties are stated with\<close>

text \<open>The number of nodes that a query matches in a document (\<open>NULL\<close> counts as none).\<close>

definition xpath_match_count :: "'doc libs \<Rightarrow> string \<Rightarrow> 'doc \<Rightarrow> nat" where
  "xpath_match_count env xpath doc =
     (case xmlXPathEvalExpression env xpath doc of
        None \<Rightarrow> 0
      | Some None \<Rightarrow> 0
      | Some (Some nodeTab) \<Rightarrow> length nodeTab)"

text \<open>
  The width that belongs to an entry of the level array: \<open>TIFFTAG_IMAGEWIDTH\<close> of the
  directory with that number.
\<close>

definition directory_width :: "tiff \<Rightarrow> int \<Rightarrow> int" where
  "directory_width t n =
     (case imagewidth (tiff_directories t ! nat n) of
        None \<Rightarrow> 0
      | Some w \<Rightarrow> uint w)"

text \<open>
  A directory that the loop takes for a pyramid level, up to the check of its
  compression: tiled, with a width, not number 0 or 1, with a \<open>level\<close> token in its
  description.
\<close>

definition level_candidate :: "nat \<Rightarrow> directory \<Rightarrow> bool" where
  "level_candidate dir d =
     (is_tiled d \<and> imagewidth d \<noteq> None \<and> dir \<noteq> 0 \<and> dir \<noteq> 1 \<and>
      (case imagedescription d of
         None \<Rightarrow> False
       | Some imageDesc \<Rightarrow> find_property imageDesc ''level'' False \<noteq> None))"

definition compression_unusable :: "'doc libs \<Rightarrow> directory \<Rightarrow> bool" where
  "compression_unusable env d =
     (case compression d of
        None \<Rightarrow> True
      | Some c \<Rightarrow> \<not> TIFFIsCODECConfigured env c)"



subsection \<open>A sample slide\<close>

text \<open>
  A slide of four directories: label, thumbnail, and two levels, the first of them with
  the XML packet. In the sample libraries a document is the number of its \<open>iScan\<close>
  elements, each with the two attributes of \<open>sample_iscan\<close>; the codecs are those of
  compression schemes 1 and 7.
\<close>

definition sample_xml :: string where
  "sample_xml =
     ''<EncodeInfo><SlideInfo><iScan Magnification='20' ScanRes='0.25'/></SlideInfo></EncodeInfo>''"

definition sample_iscan :: xml_node where
  "sample_iscan = [''Magnification'' \<mapsto> ''20'', ''ScanRes'' \<mapsto> ''0.25'']"

definition sample_libs :: "nat libs" where
  "sample_libs =
     \<lparr>xmlReadMemory =
        (\<lambda>xml. if xml = sample_xml then Some 1
               else if xml = ''<EncodeInfo><iScan/><iScan/></EncodeInfo>'' then Some 2
               else if xml = ''<EncodeInfo/>'' then Some 0
               else None),
      xmlXPathEvalExpression = (\<lambda>xpath n. Some (Some (replicate n sample_iscan))),
      TIFFIsCODECConfigured = (\<lambda>c. c = 1 \<or> c = 7),
      tiff_associated_image_error = (\<lambda>d. None),
      openslide_duplicate_int_prop =
        (\<lambda>ht src dest. case ht src of None \<Rightarrow> ht | Some v \<Rightarrow> ht(dest \<mapsto> v)),
      openslide_duplicate_double_prop =
        (\<lambda>ht src dest. case ht src of None \<Rightarrow> ht | Some v \<Rightarrow> ht(dest \<mapsto> v))\<rparr>"

definition sample_label :: directory where
  "sample_label =
     \<lparr>is_tiled = True, imagewidth = Some 1024, imagedescription = Some ''Label Image'',
      compression = Some 1, xmlpacket = None\<rparr>"

definition sample_thumbnail :: directory where
  "sample_thumbnail =
     \<lparr>is_tiled = True, imagewidth = Some 512, imagedescription = Some ''Thumbnail'',
      compression = Some 1, xmlpacket = None\<rparr>"

definition sample_level :: "32 word \<Rightarrow> string \<Rightarrow> string option \<Rightarrow> directory" where
  "sample_level w desc xmp =
     \<lparr>is_tiled = True, imagewidth = Some w, imagedescription = Some desc,
      compression = Some 7, xmlpacket = xmp\<rparr>"

definition sample_tiff :: tiff where
  "sample_tiff =
     (sample_label,
      [sample_thumbnail,
       sample_level 100000 ''level=0 mag=20'' (Some sample_xml),
       sample_level 25000 ''level=1 mag=5'' None])"

definition sample_osr :: openslide where
  "sample_osr = \<lparr>properties = Map.empty, associated_images = Map.empty\<rparr>"

subsection \<open>Notions of the proofs about the level list\<close>

text \<open>
  A level that the loop has taken from the directories \<open>ds\<close>: its number is 2 or more
  and names a directory of \<open>ds\<close>, and its width is that directory's.
\<close>

definition level_of :: "directory list \<Rightarrow> level \<Rightarrow> bool" where
  "level_of ds l =
     (2 \<le> directory l \<and> nat (directory l) < length ds \<and>
      (case imagewidth (ds ! nat (directory l)) of None \<Rightarrow> False | Some w \<Rightarrow> width l = uint w))"

text \<open>
  The order of the sorted list: the wider level first, and of two levels with the same
  width the one with the greater directory number first.
\<close>

definition level_before :: "level \<Rightarrow> level \<Rightarrow> bool" where
  "level_before a b =
     (width b < width a \<or> (width a = width b \<and> directory b < directory a))"

text \<open>
  Two more slides: one with two levels of the same width, and one whose second level
  has a compression scheme (34712) without a codec.
\<close>

definition tied_tiff :: tiff where
  "tied_tiff =
     (sample_label,
      [sample_thumbnail,
       sample_level 100000 ''level=0 z=0'' (Some sample_xml),
       sample_level 100000 ''level=0 z=1'' None])"

definition bad_codec_tiff :: tiff where
  "bad_codec_tiff =
     (sample_label,
      [sample_thumbnail,
       sample_level 100000 ''level=0'' (Some sample_xml),
       (sample_level 25000 ''level=1'' None)\<lparr>compression := Some 34712\<rparr>])"

section \<open>Properties\<close>

subsection \<open>What find\_property returns\<close>

lemma match_here_unquoted_shape:
  "match_here prop_name False s = Some m \<Longrightarrow>
     \<exists>g. g \<noteq> [] \<and> m = [prop_name @ ''='' @ g, g]"
  by (auto simp: match_here_def Let_def split: option.splits list.splits if_splits)

lemma g_regex_match_unquoted_shape:
  "g_regex_match (match_here prop_name False) s = Some m \<Longrightarrow>
     \<exists>g. g \<noteq> [] \<and> m = [prop_name @ ''='' @ g, g]"
proof (induction s)
  case Nil
  then show ?case by (auto dest: match_here_unquoted_shape)
next
  case (Cons a s)
  then show ?case
    by (auto dest: match_here_unquoted_shape split: option.splits)
qed

lemma find_property_unquoted_length:
  "find_property s prop_name False = Some v \<Longrightarrow> length prop_name + 2 \<le> length v"
proof -
  assume "find_property s prop_name False = Some v"
  then obtain m where m: "g_regex_match (match_here prop_name False) s = Some m"
    and v: "v = m ! 0"
    by (auto simp: find_property_def g_match_info_fetch_def split: option.splits)
  from g_regex_match_unquoted_shape [OF m] obtain g where
    "g \<noteq> []" "m = [prop_name @ ''='' @ g, g]" by blast
  then show ?thesis using v by (cases g) auto
qed

lemma level_value_never_0: "find_property s ''level'' False \<noteq> Some ''0''"
  using find_property_unquoted_length [of s "''level''" "''0''"] by auto

text \<open>
  C1. For a string that holds a token \<open>key=value\<close>, \<open>find_property\<close> should return the
  value without the key, the separator and the quotes. The code fetches substring 0 of
  the match, which is the whole match: for \<open>level=0\<close> it returns \<open>level=0\<close>, for the
  quoted token it returns key, separator and both quotes, and the ungreedy \<open>\S+\<close> keeps
  only the first character of an unquoted value (\<open>level=12\<close> gives \<open>level=1\<close>).
\<close>

theorem find_property_returns_whole_match:
  "find_property ''level=0'' ''level'' False = Some ''level=0'' \<and>
   find_property ''a level=12 b'' ''level'' False = Some ''level=1'' \<and>
   find_property ''level=\"0\" x'' ''level'' True = Some ''level=\"0\"''"
  by code_simp

subsection \<open>The loop body, case by case\<close>

lemma try_ventana_directory_skip:
  "\<not> is_tiled d \<or> imagewidth d = None \<Longrightarrow>
   try_ventana_directory env osr dir d = (Inr None, osr)"
  by (auto simp: try_ventana_directory_def)

lemma try_ventana_directory_label:
  "is_tiled d \<Longrightarrow> imagewidth d = Some w \<Longrightarrow>
   try_ventana_directory env osr 0 d =
     (case add_associated_image env (map_option associated_images osr) (Some ''label'') 0 d of
        Inl e \<Rightarrow> (Inl (g_prefix_error ''Can't read associated label image: '' e), osr)
      | Inr ht \<Rightarrow> (Inr None, put_associated_images osr ht))"
  by (simp add: try_ventana_directory_def)

lemma try_ventana_directory_thumbnail:
  "is_tiled d \<Longrightarrow> imagewidth d = Some w \<Longrightarrow>
   try_ventana_directory env osr (Suc 0) d =
     (case add_associated_image env (map_option associated_images osr) (Some ''thumbnail'')
             (Suc 0) d of
        Inl e \<Rightarrow> (Inl (g_prefix_error ''Can't read associated thumbnail image: '' e), osr)
      | Inr ht \<Rightarrow> (Inr None, put_associated_images osr ht))"
  by (simp add: try_ventana_directory_def)

lemma try_ventana_directory_level:
  "is_tiled d \<Longrightarrow> imagewidth d = Some w \<Longrightarrow> dir \<noteq> 0 \<Longrightarrow> dir \<noteq> 1 \<Longrightarrow>
   try_ventana_directory env osr dir d =
     (case imagedescription d of
        None \<Rightarrow> (Inr None, osr)
      | Some imageDesc \<Rightarrow>
          (case find_property imageDesc ''level'' False of
             None \<Rightarrow> (Inr None, osr)
           | Some level_value \<Rightarrow>
               (case compression d of
                  None \<Rightarrow>
                    (Inl (GError OPENSLIDE_ERROR_BAD_DATA ''Can't read compression scheme''), osr)
                | Some c \<Rightarrow>
                    (if \<not> TIFFIsCODECConfigured env c then
                       (Inl (GError OPENSLIDE_ERROR_BAD_DATA
                               (''Unsupported TIFF compression: '' @ print_unsigned (unat c))), osr)
                     else
                       (case parse_xmp_at_level_0 env osr level_value d of
                          Inl e \<Rightarrow> (Inl e, osr)
                        | Inr osr' \<Rightarrow>
                            (Inr (Some \<lparr>directory = int dir, width = uint w\<rparr>), osr'))))))"
  by (simp add: try_ventana_directory_def)

lemma try_ventana_directory_cases:
  fixes d :: directory and dir :: nat
  obtains (skip) "\<not> is_tiled d \<or> imagewidth d = None"
  | (label) w where "is_tiled d" "imagewidth d = Some w" "dir = 0"
  | (thumbnail) w where "is_tiled d" "imagewidth d = Some w" "dir = Suc 0"
  | (level) w where "is_tiled d" "imagewidth d = Some w" "dir \<noteq> 0" "dir \<noteq> 1"
  by (cases "imagewidth d") auto

text \<open>The loop after one run of its body.\<close>

lemma try_ventana_directories_step:
  "try_ventana_directory env osr dir d = (r, osr') \<Longrightarrow>
   try_ventana_directories env osr dir (d # ds) level_list =
     (case r of
        Inl e \<Rightarrow> (Inl e, osr')
      | Inr None \<Rightarrow> try_ventana_directories env osr' (Suc dir) ds level_list
      | Inr (Some l) \<Rightarrow> try_ventana_directories env osr' (Suc dir) ds (l # level_list))"
  by simp

subsection \<open>The format marker at level 0\<close>

text \<open>
  The block at \<open>level=0\<close> is never entered from the loop, so for a directory other
  than 0 and 1 the loop body does not depend on the XML packet.
\<close>

lemma parse_xmp_at_level_0_skipped:
  "find_property imageDesc ''level'' False = Some level_value \<Longrightarrow>
   parse_xmp_at_level_0 env osr level_value d = Inr osr"
  using level_value_never_0 [of imageDesc] by (auto simp: parse_xmp_at_level_0_def)

lemma xmlpacket_never_read:
  assumes "dir \<noteq> 0" and "dir \<noteq> 1"
  shows "try_ventana_directory env osr dir (d\<lparr>xmlpacket := x\<rparr>) =
         try_ventana_directory env osr dir d"
proof -
  have "parse_xmp_at_level_0 env osr level_value (d\<lparr>xmlpacket := x\<rparr>) =
        parse_xmp_at_level_0 env osr level_value d"
    if "find_property imageDesc ''level'' False = Some level_value" for imageDesc level_value
    using that by (simp add: parse_xmp_at_level_0_skipped)
  then show ?thesis
    using assms by (simp add: try_ventana_directory_def split: option.splits)
qed

text \<open>
  C2. At the directory whose description says \<open>level=0\<close>, a missing XML packet or one
  without \<open><iScan\<close> should fail the call with \<open>FORMAT_NOT_SUPPORTED\<close>. The code compares
  the string from \<open>find_property\<close> with \<open>0\<close>, and that string is never \<open>0\<close>
  (\<open>level_value_never_0\<close>), so the packet is not looked at: the sample slide with the
  packet taken away is accepted, and no property of the packet is set.
\<close>

theorem level_0_without_xmlpacket_accepted:
  "fst (openslide_try_ventana sample_libs (Some sample_osr)
         (sample_label,
          [sample_thumbnail,
           sample_level 100000 ''level=0'' None,
           sample_level 25000 ''level=1'' None]))
     = Add_tiff_ops 2 [2, 3]"
  by code_simp

subsection \<open>No level at all\<close>

text \<open>Whenever the loop ends with an empty list, the call goes on to the read.\<close>

lemma no_level_never_fails:
  assumes "is_tiled (fst tiff)"
    and "fst (try_ventana_directories env (set_vendor osr) 0 (tiff_directories tiff) []) = Inr []"
  shows "fst (openslide_try_ventana env osr tiff) = Invalid_read"
proof -
  obtain o1 where "try_ventana_directories env (set_vendor osr) 0 (tiff_directories tiff) []
      = (Inr [], o1)"
    using assms(2)
    by (cases "try_ventana_directories env (set_vendor osr) 0 (tiff_directories tiff) []") auto
  then show ?thesis
    using assms(1) by (simp add: openslide_try_ventana_def g_list_sort.simps [of _ "[]"])
qed

text \<open>
  C3. A slide on which the loop collects no level should fail with \<open>BAD_DATA\<close>. The
  code has no such check: with only the label and the thumbnail it allocates an array of
  length 0 and reads its first element.
\<close>

theorem no_level_reads_empty_array:
  "fst (openslide_try_ventana sample_libs None (sample_label, [sample_thumbnail]))
     = Invalid_read"
  by code_simp

subsection \<open>The scan-info node\<close>

text \<open>
  C5. For XML that parses, \<open>parse_xml_description\<close> fails with \<open>BAD_DATA\<close> whenever the
  query \<open>VENTANA_ISCAN\<close> matches a number of nodes other than one, and it returns true
  exactly when the number is one.
\<close>

theorem parse_xml_description_iscan_count:
  assumes "xmlReadMemory env xml = Some doc"
  shows "(xpath_match_count env VENTANA_ISCAN doc \<noteq> 1 \<longrightarrow>
            parse_xml_description env xml osr =
              Inl (GError OPENSLIDE_ERROR_BAD_DATA ''Multiple iScan elements found''))
       \<and> ((\<exists>osr'. parse_xml_description env xml osr = Inr osr') \<longleftrightarrow>
            xpath_match_count env VENTANA_ISCAN doc = 1)"
  using assms
  by (auto simp: parse_xml_description_def xpath_match_count_def eval_xpath_def Let_def
      split: option.splits)

theorem parse_xml_description_iscan_count_witness:
  "xmlReadMemory sample_libs ''<EncodeInfo/>'' = Some 0 \<and>
   xpath_match_count sample_libs VENTANA_ISCAN (0::nat) = 0 \<and>
   parse_xml_description sample_libs ''<EncodeInfo/>'' None =
     Inl (GError OPENSLIDE_ERROR_BAD_DATA ''Multiple iScan elements found'')"
  using parse_xml_description_iscan_count [of sample_libs "''<EncodeInfo/>''" 0 None]
  by (simp add: sample_libs_def xpath_match_count_def sample_xml_def)

subsection \<open>A first directory that is not tiled\<close>

text \<open>
  C7. If the first directory is not tiled, the call fails with \<open>FORMAT_NOT_SUPPORTED\<close>
  and the slide object, with its properties and associated images, is as before.
\<close>

theorem not_tiled_fails_unchanged:
  "\<not> is_tiled (fst tiff) \<Longrightarrow>
   openslide_try_ventana env osr tiff =
     (Failed (GError OPENSLIDE_ERROR_FORMAT_NOT_SUPPORTED ''TIFF is not tiled''), osr)"
  by (simp add: openslide_try_ventana_def)

theorem not_tiled_fails_unchanged_witness:
  "\<not> is_tiled (fst (sample_label\<lparr>is_tiled := False\<rparr>, [sample_thumbnail])) \<and>
   openslide_try_ventana sample_libs (Some sample_osr)
       (sample_label\<lparr>is_tiled := False\<rparr>, [sample_thumbnail]) =
     (Failed (GError OPENSLIDE_ERROR_FORMAT_NOT_SUPPORTED ''TIFF is not tiled''),
      Some sample_osr)"
  using not_tiled_fails_unchanged
    [of "(sample_label\<lparr>is_tiled := False\<rparr>, [sample_thumbnail])" sample_libs "Some sample_osr"]
  by (simp add: sample_label_def)

subsection \<open>The slide object does not steer the loop\<close>

lemma parse_xml_description_osr:
  "map_sum id (\<lambda>_. ()) (parse_xml_description env xml osr1) =
   map_sum id (\<lambda>_. ()) (parse_xml_description env xml osr2)"
  by (auto simp: parse_xml_description_def Let_def split: option.splits)

lemma set_props_None:
  "foldl (\<lambda>s (property_name, attribute_name).
       set_prop_from_attribute env s property_name xpath attribute_name doc) None ps = None"
  by (induction ps) (auto simp: set_prop_from_attribute_def split: option.splits list.splits)

lemma parse_xml_description_None:
  "parse_xml_description env xml None = Inr osr' \<Longrightarrow> osr' = None"
  by (auto simp: parse_xml_description_def Let_def set_props_None split: option.splits if_splits)

lemma parse_xmp_at_level_0_osr:
  "map_sum id (\<lambda>_. ()) (parse_xmp_at_level_0 env osr1 v d) =
   map_sum id (\<lambda>_. ()) (parse_xmp_at_level_0 env osr2 v d)"
  using parse_xml_description_osr [of env _ osr1 osr2]
  by (auto simp: parse_xmp_at_level_0_def split: option.splits)

lemma parse_xmp_at_level_0_None:
  "parse_xmp_at_level_0 env None v d = Inr osr' \<Longrightarrow> osr' = None"
  by (auto simp: parse_xmp_at_level_0_def dest: parse_xml_description_None
      split: option.splits if_splits)

lemma add_associated_image_ht:
  "map_sum id (\<lambda>_. ()) (add_associated_image env ht1 n dir d) =
   map_sum id (\<lambda>_. ()) (add_associated_image env ht2 n dir d)"
  by (auto simp: add_associated_image_def openslide_add_tiff_associated_image_def
      split: option.splits)

lemma try_ventana_directory_fst:
  "fst (try_ventana_directory env osr1 dir d) = fst (try_ventana_directory env osr2 dir d)"
proof (cases rule: try_ventana_directory_cases [where d = d and dir = dir])
  case skip
  then show ?thesis by (simp add: try_ventana_directory_skip)
next
  case (label w)
  then show ?thesis
    using add_associated_image_ht [of env "map_option associated_images osr1" "Some ''label''" 0 d
        "map_option associated_images osr2"]
    by (auto simp: try_ventana_directory_label split: sum.splits)
next
  case (thumbnail w)
  then show ?thesis
    using add_associated_image_ht [of env "map_option associated_images osr1"
        "Some ''thumbnail''" "Suc 0" d "map_option associated_images osr2"]
    by (auto simp: try_ventana_directory_thumbnail split: sum.splits)
next
  case (level w)
  have "fst (case parse_xmp_at_level_0 env osr1 v d of
               Inl e \<Rightarrow> (Inl e, osr1)
             | Inr osr' \<Rightarrow> (Inr (Some \<lparr>directory = int dir, width = uint w\<rparr>), osr'))
      = fst (case parse_xmp_at_level_0 env osr2 v d of
               Inl e \<Rightarrow> (Inl e, osr2)
             | Inr osr' \<Rightarrow> (Inr (Some \<lparr>directory = int dir, width = uint w\<rparr>), osr'))" for v
    using parse_xmp_at_level_0_osr [of env osr1 v d osr2] by (auto split: sum.splits)
  with level show ?thesis
    by (simp add: try_ventana_directory_level split: option.splits)
qed

lemma try_ventana_directory_None:
  "snd (try_ventana_directory env None dir d) = None"
proof (cases rule: try_ventana_directory_cases [where d = d and dir = dir])
  case skip
  then show ?thesis by (simp add: try_ventana_directory_skip)
next
  case (label w)
  then show ?thesis
    by (auto simp: try_ventana_directory_label put_associated_images_def split: sum.splits)
next
  case (thumbnail w)
  then show ?thesis
    by (auto simp: try_ventana_directory_thumbnail put_associated_images_def split: sum.splits)
next
  case (level w)
  then show ?thesis
    by (auto simp: try_ventana_directory_level dest: parse_xmp_at_level_0_None
        split: option.splits sum.splits)
qed

lemma try_ventana_directories_fst:
  "fst (try_ventana_directories env osr1 dir ds ls) =
   fst (try_ventana_directories env osr2 dir ds ls)"
proof (induction ds arbitrary: osr1 osr2 dir ls)
  case Nil
  show ?case by simp
next
  case (Cons d ds)
  obtain r1 o1 where s1: "try_ventana_directory env osr1 dir d = (r1, o1)"
    by (cases "try_ventana_directory env osr1 dir d")
  obtain r2 o2 where s2: "try_ventana_directory env osr2 dir d = (r2, o2)"
    by (cases "try_ventana_directory env osr2 dir d")
  have r: "r2 = r1" using try_ventana_directory_fst [of env osr1 dir d osr2] s1 s2 by simp
  show ?case
  proof (cases r1)
    case (Inl e)
    then show ?thesis
      by (simp only: try_ventana_directories_step [OF s1] try_ventana_directories_step [OF s2] r
          sum.case fst_conv)
  next
    case (Inr l)
    show ?thesis
    proof (cases l)
      case None
      with Inr show ?thesis
        using Cons.IH [of o1 "Suc dir" ls o2]
        by (simp only: try_ventana_directories_step [OF s1] try_ventana_directories_step [OF s2] r
            sum.case option.case)
    next
      case (Some a)
      with Inr show ?thesis
        using Cons.IH [of o1 "Suc dir" "a # ls" o2]
        by (simp only: try_ventana_directories_step [OF s1] try_ventana_directories_step [OF s2] r
            sum.case option.case)
    qed
  qed
qed

lemma try_ventana_directories_None:
  "snd (try_ventana_directories env None dir ds ls) = None"
proof (induction ds arbitrary: dir ls)
  case Nil
  show ?case by simp
next
  case (Cons d ds)
  obtain r where s: "try_ventana_directory env None dir d = (r, None)"
    using try_ventana_directory_None [of env dir d]
    by (cases "try_ventana_directory env None dir d") auto
  show ?case
  proof (cases r)
    case (Inl e)
    then show ?thesis by (simp only: try_ventana_directories_step [OF s] sum.case snd_conv)
  next
    case (Inr l)
    then show ?thesis
      using Cons.IH [of "Suc dir"]
      by (cases l) (simp_all only: try_ventana_directories_step [OF s] sum.case option.case)
  qed
qed

text \<open>
  C8. A call with a slide object and a call without one (\<open>osr = NULL\<close>, detection
  only) on the same TIFF end the same way: the same error, or the same level array
  handed to the backend. The call without a slide object has no properties and no
  associated images to change, and returns none.
\<close>

theorem detection_only_same_outcome:
  "fst (openslide_try_ventana env (Some s) tiff) = fst (openslide_try_ventana env None tiff)
   \<and> snd (openslide_try_ventana env None tiff) = None"
proof -
  let ?a = "try_ventana_directories env (set_vendor (Some s)) 0 (tiff_directories tiff) []"
  let ?b = "try_ventana_directories env (set_vendor None) 0 (tiff_directories tiff) []"
  obtain ra oa where a: "?a = (ra, oa)" by (cases ?a)
  obtain rb ob where b: "?b = (rb, ob)" by (cases ?b)
  have "fst ?a = fst ?b" by (rule try_ventana_directories_fst)
  then have r: "rb = ra" using a b by simp
  have "snd ?b = None" by (simp add: set_vendor_def try_ventana_directories_None)
  then have o: "ob = None" using b by simp
  show ?thesis
    unfolding openslide_try_ventana_def a b r o
    by (cases ra) (simp_all split: list.splits)
qed

theorem detection_only_same_outcome_witness:
  "fst (openslide_try_ventana sample_libs (Some sample_osr) sample_tiff) = Add_tiff_ops 2 [2, 3] \<and>
   fst (openslide_try_ventana sample_libs None sample_tiff) = Add_tiff_ops 2 [2, 3] \<and>
   snd (openslide_try_ventana sample_libs None sample_tiff) = None"
proof -
  have e: "fst (openslide_try_ventana sample_libs None sample_tiff) = Add_tiff_ops 2 [2, 3]"
    by code_simp
  show ?thesis
    using detection_only_same_outcome [of sample_libs sample_osr sample_tiff] e by simp
qed

subsection \<open>The levels that the loop collects\<close>

lemma try_ventana_directory_pushes:
  assumes "try_ventana_directory env osr dir d = (Inr (Some l), osr')"
  shows "directory l = int dir \<and> 2 \<le> dir \<and>
         (case imagewidth d of None \<Rightarrow> False | Some w \<Rightarrow> width l = uint w)"
proof (cases rule: try_ventana_directory_cases [where d = d and dir = dir])
  case skip
  with assms show ?thesis by (simp add: try_ventana_directory_skip)
next
  case (label w)
  with assms show ?thesis by (auto simp: try_ventana_directory_label split: sum.splits)
next
  case (thumbnail w)
  with assms show ?thesis by (auto simp: try_ventana_directory_thumbnail split: sum.splits)
next
  case (level w)
  with assms show ?thesis
    by (auto simp: try_ventana_directory_level split: option.splits sum.splits if_splits)
qed

lemma try_ventana_directories_levels:
  assumes "try_ventana_directories env osr dir ds ls = (Inr ls', osr')"
    and "length pre = dir"
  shows "\<exists>new. ls' = new @ ls \<and> sorted_wrt (\<lambda>a b. directory b < directory a) new \<and>
           (\<forall>l \<in> set new. int dir \<le> directory l \<and> level_of (pre @ ds) l)"
  using assms
proof (induction ds arbitrary: osr dir ls pre)
  case Nil
  then show ?case by simp
next
  case (Cons d ds)
  obtain r o1 where s: "try_ventana_directory env osr dir d = (r, o1)"
    by (cases "try_ventana_directory env osr dir d")
  note run = Cons.prems(1) [unfolded try_ventana_directories_step [OF s]]
  have len: "length (pre @ [d]) = Suc dir" using Cons.prems(2) by simp
  show ?case
  proof (cases r)
    case (Inl e)
    with run show ?thesis by simp
  next
    case (Inr lo)
    show ?thesis
    proof (cases lo)
      case None
      with Inr run have "try_ventana_directories env o1 (Suc dir) ds ls = (Inr ls', osr')"
        by simp
      from Cons.IH [OF this len] obtain new where
        "ls' = new @ ls" "sorted_wrt (\<lambda>a b. directory b < directory a) new"
        "\<forall>l \<in> set new. int (Suc dir) \<le> directory l \<and> level_of (pre @ d # ds) l"
        by auto
      then have "ls' = new @ ls \<and> sorted_wrt (\<lambda>a b. directory b < directory a) new \<and>
        (\<forall>l \<in> set new. int dir \<le> directory l \<and> level_of (pre @ d # ds) l)"
        by fastforce
      then show ?thesis by blast
    next
      case (Some l0)
      with Inr run have "try_ventana_directories env o1 (Suc dir) ds (l0 # ls) = (Inr ls', osr')"
        by simp
      from Cons.IH [OF this len] obtain new where
        n: "ls' = new @ l0 # ls" "sorted_wrt (\<lambda>a b. directory b < directory a) new"
          "\<forall>l \<in> set new. int (Suc dir) \<le> directory l \<and> level_of (pre @ d # ds) l"
        by auto
      from s Inr Some have p: "directory l0 = int dir \<and> 2 \<le> dir \<and>
         (case imagewidth d of None \<Rightarrow> False | Some w \<Rightarrow> width l0 = uint w)"
        using try_ventana_directory_pushes [of env osr dir d l0 o1] by simp
      have l0: "level_of (pre @ d # ds) l0"
        using p Cons.prems(2) by (simp add: level_of_def nth_append)
      have "ls' = (new @ [l0]) @ ls" using n(1) by simp
      moreover have "sorted_wrt (\<lambda>a b. directory b < directory a) (new @ [l0])"
        using n(2,3) p by (auto simp: sorted_wrt_append)
      moreover have "\<forall>l \<in> set (new @ [l0]). int dir \<le> directory l \<and> level_of (pre @ d # ds) l"
        using n(3) l0 p by auto
      ultimately show ?thesis by blast
    qed
  qed
qed

lemma set_g_list_sort_merge:
  "set (g_list_sort_merge c l1 l2) = set l1 \<union> set l2"
  by (induction c l1 l2 rule: g_list_sort_merge.induct) auto

lemma g_list_sort_short: "length xs \<le> 1 \<Longrightarrow> g_list_sort c xs = xs"
  by (subst g_list_sort.simps) simp

lemma g_list_sort_long:
  "\<not> length xs \<le> 1 \<Longrightarrow>
   g_list_sort c xs =
     g_list_sort_merge c (g_list_sort c (take (length xs div 2) xs))
       (g_list_sort c (drop (length xs div 2) xs))"
  by (subst g_list_sort.simps) simp

lemma set_g_list_sort: "set (g_list_sort c xs) = set xs"
proof (induction c xs rule: g_list_sort.induct)
  case (1 c xs)
  show ?case
  proof (cases "length xs \<le> 1")
    case True
    then show ?thesis by (simp add: g_list_sort_short)
  next
    case False
    have "set (take (length xs div 2) xs) \<union> set (drop (length xs div 2) xs) = set xs"
      by (metis append_take_drop_id set_append)
    with False 1 show ?thesis
      by (simp add: g_list_sort_long set_g_list_sort_merge)
  qed
qed

lemma width_compare_le_0: "(width_compare x y \<le> 0) = (width y \<le> width x)"
  by (simp add: width_compare_def)

lemma level_before_width: "level_before a b \<Longrightarrow> width b \<le> width a"
  by (auto simp: level_before_def)

lemma sorted_g_list_sort_merge:
  assumes "sorted_wrt level_before l1" and "sorted_wrt level_before l2"
    and "\<forall>x \<in> set l1. \<forall>y \<in> set l2. directory y < directory x"
  shows "sorted_wrt level_before (g_list_sort_merge width_compare l1 l2)"
  using assms
proof (induction width_compare l1 l2 rule: g_list_sort_merge.induct)
  case (1 l2)
  then show ?case by simp
next
  case (2 v va)
  then show ?case by simp
next
  case (3 x l1 y l2)
  show ?case
  proof (cases "width y \<le> width x")
    case True
    have xy: "level_before x y" using True "3.prems"(3) by (auto simp: level_before_def)
    have "\<forall>z \<in> set l2. level_before x z"
    proof
      fix z assume z: "z \<in> set l2"
      then have "width z \<le> width y" using "3.prems"(2) by (auto dest: level_before_width)
      moreover have "directory z < directory x" using z "3.prems"(3) by simp
      ultimately show "level_before x z" using True by (auto simp: level_before_def)
    qed
    moreover have "\<forall>z \<in> set l1. level_before x z" using "3.prems"(1) by simp
    moreover have "sorted_wrt level_before (g_list_sort_merge width_compare l1 (y # l2))"
      using "3.hyps"(1) "3.prems" True by (simp add: width_compare_le_0)
    ultimately show ?thesis
      using True xy by (auto simp: width_compare_le_0 set_g_list_sort_merge)
  next
    case False
    then have yx: "level_before y x" by (auto simp: level_before_def)
    have "\<forall>z \<in> set l1. level_before y z"
    proof
      fix z assume z: "z \<in> set l1"
      then have "width z \<le> width x" using "3.prems"(1) by (auto dest: level_before_width)
      then show "level_before y z" using False by (auto simp: level_before_def)
    qed
    moreover have "\<forall>z \<in> set l2. level_before y z" using "3.prems"(2) by simp
    moreover have "sorted_wrt level_before (g_list_sort_merge width_compare (x # l1) l2)"
      using "3.hyps"(2) "3.prems" False by (simp add: width_compare_le_0)
    ultimately show ?thesis
      using False yx by (auto simp: width_compare_le_0 set_g_list_sort_merge)
  qed
qed

lemma sorted_g_list_sort:
  assumes "sorted_wrt (\<lambda>a b. directory b < directory a) xs"
  shows "sorted_wrt level_before (g_list_sort width_compare xs)"
  using assms
proof (induction width_compare xs rule: g_list_sort.induct)
  case (1 xs)
  show ?case
  proof (cases "length xs \<le> 1")
    case True
    then have "xs = [] \<or> (\<exists>x. xs = [x])" by (cases xs) auto
    then have "sorted_wrt level_before xs" by auto
    then show ?thesis using True by (simp add: g_list_sort_short)
  next
    case False
    let ?n = "length xs div 2"
    have split: "sorted_wrt (\<lambda>a b. directory b < directory a) (take ?n xs @ drop ?n xs)"
      using "1.prems" by simp
    then have a: "sorted_wrt level_before (g_list_sort width_compare (take ?n xs))"
      and b: "sorted_wrt level_before (g_list_sort width_compare (drop ?n xs))"
      and c: "\<forall>x \<in> set (take ?n xs). \<forall>y \<in> set (drop ?n xs). directory y < directory x"
      using "1.hyps" False unfolding sorted_wrt_append by auto
    show ?thesis
      using sorted_g_list_sort_merge [OF a b] c
      by (simp add: g_list_sort_long [OF False] set_g_list_sort)
  qed
qed

lemma level_of_width:
  "level_of (tiff_directories tiff) l \<Longrightarrow> width l = directory_width tiff (directory l)"
  by (auto simp: level_of_def directory_width_def split: option.splits)

lemma try_ventana_levels:
  assumes "fst (openslide_try_ventana env osr tiff) = Add_tiff_ops property_dir levels"
  obtains sl where "levels = map directory sl" and "sorted_wrt level_before sl"
    and "\<forall>l \<in> set sl. level_of (tiff_directories tiff) l"
proof -
  let ?run = "try_ventana_directories env (set_vendor osr) 0 (tiff_directories tiff) []"
  obtain r o1 where run: "?run = (r, o1)" by (cases ?run)
  from assms have t: "is_tiled (fst tiff)"
    by (auto simp: openslide_try_ventana_def split: if_splits)
  from assms t run obtain level_list where
    r: "r = Inr level_list" and
    l: "levels = map directory (g_list_sort width_compare level_list)"
    by (cases r) (auto simp: openslide_try_ventana_def split: list.splits)
  from try_ventana_directories_levels [of env "set_vendor osr" 0 "tiff_directories tiff" "[]"
      level_list o1 "[]"] run r
  have s: "sorted_wrt (\<lambda>a b. directory b < directory a) level_list"
    and m: "\<forall>l \<in> set level_list. level_of (tiff_directories tiff) l" by auto
  show ?thesis
    using that [of "g_list_sort width_compare level_list"] l sorted_g_list_sort [OF s] m
    by (simp add: set_g_list_sort)
qed

text \<open>
  C9. After a call that returns true, the level array holds neither 0 nor 1: a directory
  with one of these numbers ends the loop body at \<open>continue\<close> or \<open>goto FAIL\<close>, whether
  or not it was registered as label or thumbnail.
\<close>

theorem levels_exclude_label_and_thumbnail:
  assumes "fst (openslide_try_ventana env osr tiff) = Add_tiff_ops property_dir levels"
  shows "0 \<notin> set levels \<and> 1 \<notin> set levels"
proof -
  from assms obtain sl where sl: "levels = map directory sl"
    "\<forall>l \<in> set sl. level_of (tiff_directories tiff) l"
    by (rule try_ventana_levels)
  then have "\<forall>n \<in> set levels. 2 \<le> n"
    by (auto simp: level_of_def)
  then show ?thesis by auto
qed

theorem levels_exclude_label_and_thumbnail_witness:
  "fst (openslide_try_ventana sample_libs None sample_tiff) = Add_tiff_ops 2 [2, 3] \<and>
   0 \<notin> set [2, 3 :: int] \<and> 1 \<notin> set [2, 3 :: int]"
proof -
  have e: "fst (openslide_try_ventana sample_libs None sample_tiff) = Add_tiff_ops 2 [2, 3]"
    by code_simp
  show ?thesis
    using levels_exclude_label_and_thumbnail [OF e] e by simp
qed

subsection \<open>The order of the level array\<close>

text \<open>
  C4, as the claim has it: widths do not increase along the array, and entries of equal
  width stand in ascending order of directory number. The second part fails. The list is
  built with \<open>g_list_prepend\<close>, so the later directory stands first, \<open>width_compare\<close> is
  0 for equal widths and the merge sort keeps the order of such elements: the two levels
  of width 100000 in directories 2 and 3 come out as 3, 2.
\<close>

theorem equal_width_levels_descend:
  "fst (openslide_try_ventana sample_libs None tied_tiff) = Add_tiff_ops 3 [3, 2] \<and>
   directory_width tied_tiff 3 = directory_width tied_tiff 2 \<and>
   \<not> ([3, 2 :: int] ! 0 < [3, 2] ! 1)"
  by code_simp

text \<open>
  C4, amended: after a call that returns true, the widths of the directories named in
  the level array do not increase along the array, and of two entries with the same
  width the one with the greater directory number comes first.
\<close>

theorem levels_sorted_by_width_ties_descending:
  assumes "fst (openslide_try_ventana env osr tiff) = Add_tiff_ops property_dir levels"
    and "i < j" and "j < length levels"
  shows "directory_width tiff (levels ! j) \<le> directory_width tiff (levels ! i) \<and>
         (directory_width tiff (levels ! i) = directory_width tiff (levels ! j) \<longrightarrow>
            levels ! j < levels ! i)"
proof -
  from assms(1) obtain sl where sl: "levels = map directory sl" "sorted_wrt level_before sl"
    "\<forall>l \<in> set sl. level_of (tiff_directories tiff) l"
    by (rule try_ventana_levels)
  have j: "j < length sl" and i: "i < length sl" using assms(2,3) sl(1) by auto
  have "level_before (sl ! i) (sl ! j)"
    using sl(2) assms(2) j by (simp add: sorted_wrt_iff_nth_less)
  moreover have "width (sl ! i) = directory_width tiff (levels ! i)"
    using sl(1,3) i by (simp add: level_of_width)
  moreover have "width (sl ! j) = directory_width tiff (levels ! j)"
    using sl(1,3) j by (simp add: level_of_width)
  ultimately show ?thesis
    using sl(1) i j by (auto simp: level_before_def)
qed

theorem levels_sorted_by_width_ties_descending_witness:
  "fst (openslide_try_ventana sample_libs None tied_tiff) = Add_tiff_ops 3 [3, 2] \<and>
   directory_width tied_tiff ([3, 2] ! 1) \<le> directory_width tied_tiff ([3, 2] ! 0) \<and>
   [3, 2 :: int] ! 1 < [3, 2] ! 0"
proof -
  have e: "fst (openslide_try_ventana sample_libs None tied_tiff) = Add_tiff_ops 3 [3, 2]"
    by code_simp
  have w: "directory_width tied_tiff 3 = directory_width tied_tiff 2"
    by code_simp
  show ?thesis using levels_sorted_by_width_ties_descending [OF e, of 0 1] e w by simp
qed

subsection \<open>A level with a compression scheme that cannot be read\<close>

lemma try_ventana_directories_append:
  "try_ventana_directories env osr dir (xs @ ys) ls =
     (case try_ventana_directories env osr dir xs ls of
        (Inl e, osr') \<Rightarrow> (Inl e, osr')
      | (Inr ls', osr') \<Rightarrow> try_ventana_directories env osr' (dir + length xs) ys ls')"
proof (induction xs arbitrary: osr dir ls)
  case Nil
  show ?case by simp
next
  case (Cons d xs)
  obtain r o1 where s: "try_ventana_directory env osr dir d = (r, o1)"
    by (cases "try_ventana_directory env osr dir d")
  have a: "(d # xs) @ ys = d # (xs @ ys)" by simp
  have b: "dir + length (d # xs) = Suc dir + length xs" by simp
  show ?case
  proof (cases r)
    case (Inl e)
    then show ?thesis
      unfolding a b try_ventana_directories_step [OF s] by simp
  next
    case (Inr lo)
    then show ?thesis
      unfolding a b try_ventana_directories_step [OF s]
      by (cases lo) (simp_all add: Cons.IH)
  qed
qed

lemma try_ventana_directories_fails_at:
  assumes "try_ventana_directories env osr dir xs ls = (Inr ls', o1)"
    and "try_ventana_directory env o1 (dir + length xs) d = (Inl e, o2)"
  shows "try_ventana_directories env osr dir (xs @ d # ys) ls = (Inl e, o2)"
  unfolding try_ventana_directories_append assms(1)
  by (simp add: assms(2))

lemma level_candidate_unusable_compression:
  assumes "level_candidate dir d" and "compression_unusable env d"
  shows "\<exists>msg. try_ventana_directory env osr dir d =
           (Inl (GError OPENSLIDE_ERROR_BAD_DATA msg), osr)"
proof -
  from assms(1) obtain w imageDesc v where
    "is_tiled d" "imagewidth d = Some w" "dir \<noteq> 0" "dir \<noteq> 1"
    "imagedescription d = Some imageDesc" "find_property imageDesc ''level'' False = Some v"
    by (auto simp: level_candidate_def split: option.splits)
  then show ?thesis
    using assms(2)
    by (auto simp: try_ventana_directory_level compression_unusable_def split: option.splits)
qed

text \<open>
  C6. Let directory \<open>i\<close> be a level candidate whose compression tag cannot be read or
  names a scheme without a codec, and let the loop get as far as this directory, with
  whatever list of levels \<open>level_list\<close> from the directories before it. Then the call
  fails with \<open>BAD_DATA\<close>; the directory is not skipped.
\<close>

theorem unusable_compression_fails_bad_data:
  assumes "is_tiled (fst tiff)" and "i < length (tiff_directories tiff)"
    and "level_candidate i (tiff_directories tiff ! i)"
    and "compression_unusable env (tiff_directories tiff ! i)"
    and "fst (try_ventana_directories env (set_vendor osr) 0 (take i (tiff_directories tiff)) [])
           = Inr level_list"
  shows "\<exists>msg. fst (openslide_try_ventana env osr tiff) =
           Failed (GError OPENSLIDE_ERROR_BAD_DATA msg)"
proof -
  let ?ds = "tiff_directories tiff"
  obtain o1 where pre: "try_ventana_directories env (set_vendor osr) 0 (take i ?ds) []
      = (Inr level_list, o1)"
    using assms(5) by (cases "try_ventana_directories env (set_vendor osr) 0 (take i ?ds) []") auto
  obtain msg where step: "try_ventana_directory env o1 i (?ds ! i) =
      (Inl (GError OPENSLIDE_ERROR_BAD_DATA msg), o1)"
    using level_candidate_unusable_compression [OF assms(3,4)] by blast
  have split: "?ds = take i ?ds @ (?ds ! i) # drop (Suc i) ?ds"
    using assms(2) by (simp add: id_take_nth_drop)
  have len: "length (take i ?ds) = i" using assms(2) by simp
  have step': "try_ventana_directory env o1 (0 + length (take i ?ds)) (?ds ! i) =
      (Inl (GError OPENSLIDE_ERROR_BAD_DATA msg), o1)"
    using step len by simp
  have "try_ventana_directories env (set_vendor osr) 0
          (take i ?ds @ (?ds ! i) # drop (Suc i) ?ds) []
      = (Inl (GError OPENSLIDE_ERROR_BAD_DATA msg), o1)"
    by (rule try_ventana_directories_fails_at [OF pre step'])
  then have "try_ventana_directories env (set_vendor osr) 0 ?ds []
      = (Inl (GError OPENSLIDE_ERROR_BAD_DATA msg), o1)"
    using split by simp
  then show ?thesis using assms(1) by (simp add: openslide_try_ventana_def)
qed

theorem unusable_compression_fails_bad_data_witness:
  "is_tiled (fst bad_codec_tiff) \<and> 3 < length (tiff_directories bad_codec_tiff) \<and>
   level_candidate 3 (tiff_directories bad_codec_tiff ! 3) \<and>
   compression_unusable sample_libs (tiff_directories bad_codec_tiff ! 3) \<and>
   fst (try_ventana_directories sample_libs (set_vendor None) 0
          (take 3 (tiff_directories bad_codec_tiff)) [])
     = Inr [\<lparr>directory = 2, width = 100000\<rparr>] \<and>
   (\<exists>msg. fst (openslide_try_ventana sample_libs None bad_codec_tiff) =
           Failed (GError OPENSLIDE_ERROR_BAD_DATA msg))"
proof -
  have 1: "is_tiled (fst bad_codec_tiff)" by code_simp
  have 2: "3 < length (tiff_directories bad_codec_tiff)" by code_simp
  have 3: "level_candidate 3 (tiff_directories bad_codec_tiff ! 3)" by code_simp
  have 4: "compression_unusable sample_libs (tiff_directories bad_codec_tiff ! 3)" by code_simp
  have 5: "fst (try_ventana_directories sample_libs (set_vendor None) 0
          (take 3 (tiff_directories bad_codec_tiff)) [])
     = Inr [\<lparr>directory = 2, width = 100000\<rparr>]" by code_simp
  show ?thesis using unusable_compression_fails_bad_data [OF 1 2 3 4 5] 1 2 3 4 5 by simp
qed

subsection \<open>When the label and the thumbnail are registered\<close>














end
